theory Spec2Isabelle
  imports Complex_Main "HOL-Library.Sublist"
begin

section \<open>The catalog of src/index.ts\<close>

text \<open>
  The server keeps one array of categories, read once from \<^verbatim>\<open>product.json\<close>, and answers
  four tools over it. The interfaces \<^verbatim>\<open>ProductSpec\<close>, \<^verbatim>\<open>Subcategory\<close> and
  \<^verbatim>\<open>ProductCategory\<close> (lines 17-48) become records. The numbers of the document and of the
  arguments come out of \<^verbatim>\<open>JSON.parse\<close> and are taken to be finite; the code only compares
  them, so they are embedded in \<^typ>\<open>real\<close>, where the comparisons agree.
  \<^verbatim>\<open>T | null\<close> and an argument that may be absent are options.
\<close>

record ProductSpec =
  index :: string
  group :: "string option"
  brand :: string
  model :: string
  specs :: "string list"
  price :: real
  original_price :: "real option"
  discount_amount :: "real option"
  markers :: "string list"
  raw_text :: string

record Subcategory =
  name :: string
  products :: "ProductSpec list"

record Stats =
  total_items :: real
  hot_items :: real
  with_images :: real
  with_discussions :: real
  price_changes :: real
  time_limited :: real

record ProductCategory =
  category_id :: string
  category_name :: string
  summary :: string
  stats :: Stats
  subcategories :: "Subcategory list"

type_synonym Catalog = "ProductCategory list"

text \<open>The only field of the class that the tools read (line 52).\<close>

record CoolPCMCPServer =
  productData :: Catalog

section \<open>The JavaScript primitives the tools use\<close>

text \<open>
  Strings are lists of characters. \<^verbatim>\<open>String.prototype.toLowerCase\<close> belongs to the
  JavaScript engine, not to the program, and its case tables are not in the repository:
  every function below that calls it takes it as its first argument, named
  \<^verbatim>\<open>toLowerCase\<close>, and a theorem that fixes no lowering holds for every function from
  strings to strings. \<^verbatim>\<open>s.includes(k)\<close> looks for \<^verbatim>\<open>k\<close> at every position of
  \<^verbatim>\<open>s\<close>; \<^verbatim>\<open>xs.join(sep)\<close> puts the separator between the elements.
\<close>

type_synonym Lowering = "string \<Rightarrow> string"

fun js_includes :: "string \<Rightarrow> string \<Rightarrow> bool" where
  "js_includes [] k = (k = [])"
| "js_includes (c # s) k = (prefix k (c # s) \<or> js_includes s k)"

fun join :: "string list \<Rightarrow> string \<Rightarrow> string" where
  "join [] sep = []"
| "join [x] sep = x"
| "join (x # y # ys) sep = x @ sep @ join (y # ys) sep"

text \<open>
  Truthiness, as \<^verbatim>\<open>if (x)\<close> and \<^verbatim>\<open>x && ...\<close> test it: an absent argument, the empty string
  and the number 0 are falsy.
\<close>

definition truthy_string :: "string option \<Rightarrow> bool" where
  "truthy_string a = (case a of None \<Rightarrow> False | Some s \<Rightarrow> s \<noteq> [])"

definition truthy_number :: "real option \<Rightarrow> bool" where
  "truthy_number a = (case a of None \<Rightarrow> False | Some x \<Rightarrow> x \<noteq> 0)"

text \<open>
  \<^verbatim>\<open>xs.slice(0, end)\<close>: the end is truncated towards zero; a negative end counts from the
  end of the array; the result is clipped to the array.
\<close>

definition to_integer :: "real \<Rightarrow> int" where
  "to_integer x = (if x < 0 then \<lceil>x\<rceil> else \<lfloor>x\<rfloor>)"

definition slice0 :: "'a list \<Rightarrow> real \<Rightarrow> 'a list" where
  "slice0 xs e =
     (let len = int (length xs);
          rel = to_integer e;
          final = (if rel < 0 then max (len + rel) 0 else min rel len)
      in take (nat final) xs)"

text \<open>The double quote of the template literals of the messages.\<close>

definition dq :: string where
  "dq = [CHR 0x22]"

section \<open>search\_products (lines 181-248)\<close>

text \<open>
  The arguments after the destructuring of line 182: \<^verbatim>\<open>keyword\<close> is required by the input
  schema, the others may be absent. \<^verbatim>\<open>limit = 10\<close> applies when \<^verbatim>\<open>limit\<close> is absent.
\<close>

record SearchArgs =
  keyword :: string
  category :: "string option"
  min_price :: "real option"
  max_price :: "real option"
  limit :: "real option"

definition search_limit :: "SearchArgs \<Rightarrow> real" where
  "search_limit args = (case limit args of None \<Rightarrow> 10 | Some l \<Rightarrow> l)"

text \<open>
  An element of \<^verbatim>\<open>results\<close> (lines 206-210): the product with the names of its category and
  subcategory.
\<close>

type_synonym Annotated = "ProductSpec \<times> string \<times> string"

text \<open>The object each result is mapped to in the answer (lines 233-243).\<close>

record SearchHit =
  hit_brand :: string
  hit_model :: string
  hit_specs :: "string list"
  hit_price :: real
  hit_original_price :: "real option"
  hit_discount_amount :: "real option"
  hit_category :: string
  hit_subcategory :: string
  hit_markers :: "string list"

record SearchOutput =
  total_found :: nat
  results :: "SearchHit list"

definition search_hit :: "Annotated \<Rightarrow> SearchHit" where
  "search_hit a = (case a of (p, cname, sname) \<Rightarrow>
     \<lparr>hit_brand = brand p, hit_model = model p, hit_specs = specs p, hit_price = price p,
      hit_original_price = original_price p, hit_discount_amount = discount_amount p,
      hit_category = cname, hit_subcategory = sname, hit_markers = markers p\<rparr>)"

text \<open>Line 192: the text a keyword is looked for in.\<close>

definition searchText :: "Lowering \<Rightarrow> ProductSpec \<Rightarrow> string" where
  "searchText toLowerCase product =
     toLowerCase (brand product @ '' '' @ model product @ '' '' @ join (specs product) '' '' @ '' ''
                  @ raw_text product)"

text \<open>Line 186: the test that skips a category.\<close>

definition category_skipped :: "Lowering \<Rightarrow> SearchArgs \<Rightarrow> ProductCategory \<Rightarrow> bool" where
  "category_skipped toLowerCase args cat =
     (truthy_string (category args) \<and>
      \<not> js_includes (toLowerCase (category_name cat))
           (toLowerCase (case category args of None \<Rightarrow> [] | Some c \<Rightarrow> c)))"

text \<open>Lines 198 and 202: the two price tests that skip a product.\<close>

definition below_min :: "SearchArgs \<Rightarrow> ProductSpec \<Rightarrow> bool" where
  "below_min args product =
     (truthy_number (min_price args) \<and>
      (case min_price args of None \<Rightarrow> False | Some m \<Rightarrow> price product < m))"

definition above_max :: "SearchArgs \<Rightarrow> ProductSpec \<Rightarrow> bool" where
  "above_max args product =
     (truthy_number (max_price args) \<and>
      (case max_price args of None \<Rightarrow> False | Some m \<Rightarrow> price product > m))"

text \<open>Lines 212, 217 and 222: \<^verbatim>\<open>results.length >= limit\<close>.\<close>

definition limit_reached :: "SearchArgs \<Rightarrow> Annotated list \<Rightarrow> bool" where
  "limit_reached args rs = (real (length rs) \<ge> search_limit args)"

text \<open>
  The three nested loops, innermost first. Each takes the \<^verbatim>\<open>results\<close> array so far and
  returns it as the loop leaves it; \<^verbatim>\<open>continue\<close> goes on with the rest of the list,
  \<^verbatim>\<open>break\<close> returns at once.
\<close>

fun products_loop ::
  "Lowering \<Rightarrow> SearchArgs \<Rightarrow> ProductCategory \<Rightarrow> Subcategory \<Rightarrow> ProductSpec list \<Rightarrow> Annotated list \<Rightarrow> Annotated list"
where
  "products_loop toLowerCase args cat subcat [] rs = rs"
| "products_loop toLowerCase args cat subcat (product # rest) rs =
     (if \<not> js_includes (searchText toLowerCase product) (toLowerCase (keyword args))
      then products_loop toLowerCase args cat subcat rest rs
      else if below_min args product then products_loop toLowerCase args cat subcat rest rs
      else if above_max args product then products_loop toLowerCase args cat subcat rest rs
      else let rs' = rs @ [(product, category_name cat, name subcat)]
           in if limit_reached args rs' then rs' else products_loop toLowerCase args cat subcat rest rs')"

fun subcategories_loop ::
  "Lowering \<Rightarrow> SearchArgs \<Rightarrow> ProductCategory \<Rightarrow> Subcategory list \<Rightarrow> Annotated list \<Rightarrow> Annotated list"
where
  "subcategories_loop toLowerCase args cat [] rs = rs"
| "subcategories_loop toLowerCase args cat (subcat # rest) rs =
     (let rs' = products_loop toLowerCase args cat subcat (products subcat) rs
      in if limit_reached args rs' then rs' else subcategories_loop toLowerCase args cat rest rs')"

fun categories_loop :: "Lowering \<Rightarrow> SearchArgs \<Rightarrow> ProductCategory list \<Rightarrow> Annotated list \<Rightarrow> Annotated list"
where
  "categories_loop toLowerCase args [] rs = rs"
| "categories_loop toLowerCase args (cat # rest) rs =
     (if category_skipped toLowerCase args cat then categories_loop toLowerCase args rest rs
      else let rs' = subcategories_loop toLowerCase args cat (subcategories cat) rs
           in if limit_reached args rs' then rs' else categories_loop toLowerCase args rest rs')"

text \<open>The object handed to \<^verbatim>\<open>JSON.stringify\<close> (lines 231-244).\<close>

definition searchProducts :: "Lowering \<Rightarrow> Catalog \<Rightarrow> SearchArgs \<Rightarrow> SearchOutput" where
  "searchProducts toLowerCase data args =
     (let rs = categories_loop toLowerCase args data []
      in \<lparr>total_found = length rs, results = map search_hit rs\<rparr>)"

section \<open>get\_product\_by\_model (lines 250-295)\<close>

record ProductDetail =
  det_brand :: string
  det_model :: string
  det_specs :: "string list"
  det_price :: real
  det_original_price :: "real option"
  det_discount_amount :: "real option"
  det_category :: string
  det_subcategory :: string
  det_markers :: "string list"
  det_raw_text :: string

text \<open>
  The two answers: \<^verbatim>\<open>{found: true, product}\<close> and \<^verbatim>\<open>{found: false, message}\<close>.
\<close>

datatype ModelResult = ModelFound ProductDetail | ModelNotFound string

definition product_detail :: "ProductCategory \<Rightarrow> Subcategory \<Rightarrow> ProductSpec \<Rightarrow> ProductDetail" where
  "product_detail cat subcat product =
     \<lparr>det_brand = brand product, det_model = model product, det_specs = specs product,
      det_price = price product, det_original_price = original_price product,
      det_discount_amount = discount_amount product, det_category = category_name cat,
      det_subcategory = name subcat, det_markers = markers product,
      det_raw_text = raw_text product\<rparr>"

text \<open>
  The nested loops of lines 253-282. \<^verbatim>\<open>Some d\<close> is the \<^verbatim>\<open>return\<close> of line 257 from inside
  the loops, \<^verbatim>\<open>None\<close> is a loop that ran to its end.
\<close>

fun model_products_loop ::
  "Lowering \<Rightarrow> string \<Rightarrow> ProductCategory \<Rightarrow> Subcategory \<Rightarrow> ProductSpec list \<Rightarrow> ProductDetail option"
where
  "model_products_loop toLowerCase m cat subcat [] = None"
| "model_products_loop toLowerCase m cat subcat (product # rest) =
     (if toLowerCase (model product) = toLowerCase m then Some (product_detail cat subcat product)
      else model_products_loop toLowerCase m cat subcat rest)"

fun model_subcategories_loop ::
  "Lowering \<Rightarrow> string \<Rightarrow> ProductCategory \<Rightarrow> Subcategory list \<Rightarrow> ProductDetail option"
where
  "model_subcategories_loop toLowerCase m cat [] = None"
| "model_subcategories_loop toLowerCase m cat (subcat # rest) =
     (case model_products_loop toLowerCase m cat subcat (products subcat) of
        Some d \<Rightarrow> Some d
      | None \<Rightarrow> model_subcategories_loop toLowerCase m cat rest)"

fun model_categories_loop :: "Lowering \<Rightarrow> string \<Rightarrow> ProductCategory list \<Rightarrow> ProductDetail option" where
  "model_categories_loop toLowerCase m [] = None"
| "model_categories_loop toLowerCase m (cat # rest) =
     (case model_subcategories_loop toLowerCase m cat (subcategories cat) of
        Some d \<Rightarrow> Some d
      | None \<Rightarrow> model_categories_loop toLowerCase m rest)"

definition getProductByModel :: "Lowering \<Rightarrow> Catalog \<Rightarrow> string \<Rightarrow> ModelResult" where
  "getProductByModel toLowerCase data m =
     (case model_categories_loop toLowerCase m data of
        Some d \<Rightarrow> ModelFound d
      | None \<Rightarrow> ModelNotFound (''Product with model '' @ dq @ m @ dq @ '' not found''))"

section \<open>list\_categories (lines 297-319)\<close>

record SubcategoryEntry =
  entry_name :: string
  product_count :: nat

record CategoryEntry =
  entry_category_id :: string
  entry_category_name :: string
  entry_stats :: Stats
  entry_subcategories :: "SubcategoryEntry list"

record CategoriesOutput =
  total_categories :: nat
  categories :: "CategoryEntry list"

definition listCategories :: "Catalog \<Rightarrow> CategoriesOutput" where
  "listCategories data =
     (let cats = map (\<lambda>cat.
            \<lparr>entry_category_id = category_id cat, entry_category_name = category_name cat,
             entry_stats = stats cat,
             entry_subcategories = map (\<lambda>subcat.
                \<lparr>entry_name = name subcat, product_count = length (products subcat)\<rparr>)
                (subcategories cat)\<rparr>) data
      in \<lparr>total_categories = length cats, categories = cats\<rparr>)"

section \<open>get\_category\_products (lines 321-402)\<close>

record CategoryProduct =
  cp_brand :: string
  cp_model :: string
  cp_specs :: "string list"
  cp_price :: real
  cp_original_price :: "real option"
  cp_discount_amount :: "real option"
  cp_subcategory :: string
  cp_markers :: "string list"

record Listing =
  listing_category_name :: string
  subcategory_filter :: "string option"
  total_products :: nat
  showing :: nat
  listing_products :: "CategoryProduct list"

text \<open>
  The two answers: the listing of lines 392-398, and \<^verbatim>\<open>{found: false, message}\<close>, which
  both the unknown category (line 326) and the unknown subcategory (line 349) return.
\<close>

datatype CategoryResult = CategoryListing Listing | CategoryNotFound string

text \<open>An element of \<^verbatim>\<open>allProducts\<close>: the product with its subcategory's name.\<close>

definition with_subcategory :: "Subcategory \<Rightarrow> (ProductSpec \<times> string) list" where
  "with_subcategory subcat = map (\<lambda>p. (p, name subcat)) (products subcat)"

definition category_product :: "ProductSpec \<times> string \<Rightarrow> CategoryProduct" where
  "category_product a = (case a of (p, sname) \<Rightarrow>
     \<lparr>cp_brand = brand p, cp_model = model p, cp_specs = specs p, cp_price = price p,
      cp_original_price = original_price p, cp_discount_amount = discount_amount p,
      cp_subcategory = sname, cp_markers = markers p\<rparr>)"

text \<open>Lines 369-374: the loop that appends every subcategory's products.\<close>

fun all_products_loop :: "Subcategory list \<Rightarrow> (ProductSpec \<times> string) list \<Rightarrow> (ProductSpec \<times> string) list"
where
  "all_products_loop [] allProducts = allProducts"
| "all_products_loop (subcat # rest) allProducts =
     all_products_loop rest (allProducts @ with_subcategory subcat)"

text \<open>Lines 377-401: the answer, from \<^verbatim>\<open>allProducts\<close> and \<^verbatim>\<open>subcategoryInfo\<close>.\<close>

definition listing_of ::
  "ProductCategory \<Rightarrow> string option \<Rightarrow> (ProductSpec \<times> string) list \<Rightarrow> real \<Rightarrow> Listing" where
  "listing_of cat subcategoryInfo allProducts limit_val =
     (let ps = map category_product (slice0 allProducts limit_val)
      in \<lparr>listing_category_name = category_name cat, subcategory_filter = subcategoryInfo,
          total_products = length allProducts, showing = length ps, listing_products = ps\<rparr>)"

definition getCategoryProducts ::
  "Lowering \<Rightarrow> Catalog \<Rightarrow> string \<Rightarrow> string option \<Rightarrow> real option \<Rightarrow> CategoryResult" where
  "getCategoryProducts toLowerCase data cid subcategory_name limit_arg =
     (let limit_val = (case limit_arg of None \<Rightarrow> 20 | Some l \<Rightarrow> l) in
      case find (\<lambda>cat. category_id cat = cid) data of
        None \<Rightarrow> CategoryNotFound (''Category with ID '' @ dq @ cid @ dq @ '' not found'')
      | Some cat \<Rightarrow>
          if truthy_string subcategory_name then
            (let sname = (case subcategory_name of None \<Rightarrow> [] | Some s \<Rightarrow> s) in
             case find (\<lambda>sub. toLowerCase (name sub) = toLowerCase sname) (subcategories cat) of
               None \<Rightarrow> CategoryNotFound
                 (''Subcategory '' @ dq @ sname @ dq @ '' not found in category '' @ dq
                  @ category_name cat @ dq)
             | Some subcat \<Rightarrow>
                 CategoryListing (listing_of cat (Some (name subcat)) (with_subcategory subcat) limit_val))
          else CategoryListing (listing_of cat None (all_products_loop (subcategories cat) []) limit_val))"

section \<open>Loading (lines 52-79)\<close>

text \<open>
  \<^verbatim>\<open>readFileSync\<close> and \<^verbatim>\<open>JSON.parse\<close> are outside the program: what they do is given as
  a value, \<^verbatim>\<open>Inl\<close> the exception one of them throws, \<^verbatim>\<open>Inr\<close> the parsed array.
  \<^verbatim>\<open>loadProductData\<close> returns the new state of the object and what it wrote with
  \<^verbatim>\<open>console.error\<close>.
\<close>

datatype LoadError = ReadFailed string | ParseFailed string

definition loadProductData ::
  "LoadError + Catalog \<Rightarrow> CoolPCMCPServer \<Rightarrow> CoolPCMCPServer \<times> LoadError list" where
  "loadProductData outcome this =
     (case outcome of
        Inr rawData \<Rightarrow> (this\<lparr>productData := rawData\<rparr>, [])
      | Inl error \<Rightarrow> (this, [error]))"

text \<open>The constructor: the field starts as the empty array (line 52), then the load runs.\<close>

definition new_server :: "LoadError + Catalog \<Rightarrow> CoolPCMCPServer \<times> LoadError list" where
  "new_server outcome = loadProductData outcome \<lparr>productData = []\<rparr>"

section \<open>The catalog in traversal order\<close>

text \<open>
  Every product of the catalog with the category and the subcategory that hold it: category
  by category, subcategory by subcategory, product by product, each in stored order.
\<close>

definition traversal :: "Catalog \<Rightarrow> (ProductCategory \<times> Subcategory \<times> ProductSpec) list" where
  "traversal data =
     concat (map (\<lambda>cat. concat (map (\<lambda>subcat. map (\<lambda>p. (cat, subcat, p)) (products subcat))
                                     (subcategories cat))) data)"

text \<open>The product passes every filter of the search: category, keyword, both prices.\<close>

definition search_match :: "Lowering \<Rightarrow> SearchArgs \<Rightarrow> ProductCategory \<times> Subcategory \<times> ProductSpec \<Rightarrow> bool" where
  "search_match toLowerCase args e = (case e of (cat, subcat, p) \<Rightarrow>
     \<not> category_skipped toLowerCase args cat \<and> js_includes (searchText toLowerCase p) (toLowerCase (keyword args)) \<and>
     \<not> below_min args p \<and> \<not> above_max args p)"

definition annotate :: "ProductCategory \<times> Subcategory \<times> ProductSpec \<Rightarrow> Annotated" where
  "annotate e = (case e of (cat, subcat, p) \<Rightarrow> (p, category_name cat, name subcat))"

text \<open>
  The number of results at which a search with a positive limit stops: the least whole
  number that is at least the limit (the limit itself when it is a whole number).
\<close>

definition search_cap :: "SearchArgs \<Rightarrow> nat" where
  "search_cap args = nat \<lceil>search_limit args\<rceil>"

text \<open>The tests of the innermost loop body, and the matches of a subcategory and a category.\<close>

definition product_passes :: "Lowering \<Rightarrow> SearchArgs \<Rightarrow> ProductSpec \<Rightarrow> bool" where
  "product_passes toLowerCase args p =
     (js_includes (searchText toLowerCase p) (toLowerCase (keyword args)) \<and> \<not> below_min args p \<and>
      \<not> above_max args p)"

definition subcategory_matches :: "Lowering \<Rightarrow> SearchArgs \<Rightarrow> ProductCategory \<Rightarrow> Subcategory \<Rightarrow> Annotated list" where
  "subcategory_matches toLowerCase args cat subcat =
     map (\<lambda>p. (p, category_name cat, name subcat)) (filter (product_passes toLowerCase args) (products subcat))"

definition category_matches :: "Lowering \<Rightarrow> SearchArgs \<Rightarrow> ProductCategory \<Rightarrow> Annotated list" where
  "category_matches toLowerCase args cat =
     (if category_skipped toLowerCase args cat then []
      else concat (map (subcategory_matches toLowerCase args cat) (subcategories cat)))"


section \<open>ASCII text\<close>

text \<open>
  What \<^verbatim>\<open>toLowerCase\<close> does to a string of ASCII characters is fixed by the language:
  the letters A to Z become a to z and nothing else changes. \<open>ascii_lower\<close> is that
  lowering, and \<open>lowers_ascii\<close> says of a lowering that it agrees with it on every ASCII
  string; beyond ASCII nothing is assumed of a lowering.
\<close>

definition ascii_lower_char :: "char \<Rightarrow> char" where
  "ascii_lower_char c =
     (let n = (of_char c :: nat) in if 65 \<le> n \<and> n \<le> 90 then char_of (n + 32) else c)"

definition ascii_lower :: Lowering where
  "ascii_lower s = map ascii_lower_char s"

definition is_ascii :: "string \<Rightarrow> bool" where
  "is_ascii s = list_all (\<lambda>c. (of_char c :: nat) < 128) s"

definition lowers_ascii :: "Lowering \<Rightarrow> bool" where
  "lowers_ascii toLowerCase = (\<forall>s. is_ascii s \<longrightarrow> toLowerCase s = ascii_lower s)"

text \<open>The strings a search lowers: of a product, of a catalog, of the arguments.\<close>

definition ascii_product :: "ProductSpec \<Rightarrow> bool" where
  "ascii_product p =
     (is_ascii (brand p) \<and> is_ascii (model p) \<and> list_all is_ascii (specs p) \<and>
      is_ascii (raw_text p))"

definition ascii_catalog :: "Catalog \<Rightarrow> bool" where
  "ascii_catalog data =
     list_all (\<lambda>cat. is_ascii (category_name cat) \<and>
                list_all (\<lambda>subcat. list_all ascii_product (products subcat)) (subcategories cat))
       data"

definition ascii_args :: "SearchArgs \<Rightarrow> bool" where
  "ascii_args args =
     (is_ascii (keyword args) \<and> (case category args of None \<Rightarrow> True | Some c \<Rightarrow> is_ascii c))"

section \<open>Concrete catalogs\<close>

text \<open>
  The catalog of the boundary scenario: one category \<^verbatim>\<open>C1\<close> named \<^verbatim>\<open>CPU\<close>, one
  subcategory \<^verbatim>\<open>Intel\<close>, one product \<^verbatim>\<open>i5-13400\<close> at 6000.
\<close>

definition no_stats :: Stats where
  "no_stats = \<lparr>total_items = 0, hot_items = 0, with_images = 0, with_discussions = 0,
                price_changes = 0, time_limited = 0\<rparr>"

definition demo_product :: ProductSpec where
  "demo_product = \<lparr>index = ''1'', group = None, brand = ''Intel'', model = ''i5-13400'',
      specs = [''10C'', ''16T''], price = 6000, original_price = None, discount_amount = None,
      markers = [], raw_text = ''Intel i5-13400 10C 16T''\<rparr>"

definition demo_subcategory :: Subcategory where
  "demo_subcategory = \<lparr>name = ''Intel'', products = [demo_product]\<rparr>"

definition demo_category :: ProductCategory where
  "demo_category = \<lparr>category_id = ''C1'', category_name = ''CPU'', summary = [], stats = no_stats,
      subcategories = [demo_subcategory]\<rparr>"

definition demo_catalog :: Catalog where
  "demo_catalog = [demo_category]"

text \<open>
  A category whose two subcategories are named \<^verbatim>\<open>Intel\<close> and \<^verbatim>\<open>intel\<close>: the names differ
  as stored and agree once lowered.
\<close>

definition twin_catalog :: Catalog where
  "twin_catalog =
     [\<lparr>category_id = ''C1'', category_name = ''CPU'', summary = [], stats = no_stats,
       subcategories = [\<lparr>name = ''Intel'', products = [demo_product]\<rparr>,
                        \<lparr>name = ''intel'', products = []\<rparr>]\<rparr>]"







text \<open>
  A catalog of two categories with two subcategories each; the last subcategory holds two
  products whose models differ in case only.
\<close>

definition item :: "string \<Rightarrow> string \<Rightarrow> real \<Rightarrow> ProductSpec" where
  "item b m pr = \<lparr>index = [], group = None, brand = b, model = m, specs = [], price = pr,
      original_price = None, discount_amount = None, markers = [], raw_text = b @ '' '' @ m\<rparr>"

definition amd_subcategory :: Subcategory where
  "amd_subcategory = \<lparr>name = ''AMD'', products =
      [item ''AMD'' ''Ryzen5-7600'' 7000, item ''AMD'' ''Ryzen7-7700'' 10000]\<rparr>"

definition cpu_category :: ProductCategory where
  "cpu_category = \<lparr>category_id = ''C1'', category_name = ''CPU'', summary = [], stats = no_stats,
      subcategories = [demo_subcategory, amd_subcategory]\<rparr>"

definition nvidia_subcategory :: Subcategory where
  "nvidia_subcategory = \<lparr>name = ''NVIDIA'', products = [item ''NVIDIA'' ''RTX-4060'' 9000]\<rparr>"

definition radeon_subcategory :: Subcategory where
  "radeon_subcategory = \<lparr>name = ''Radeon'', products =
      [item ''AMD'' ''RX-7600'' 8000, item ''Sapphire'' ''rx-7600'' 8500]\<rparr>"

definition gpu_category :: ProductCategory where
  "gpu_category = \<lparr>category_id = ''C2'', category_name = ''GPU'', summary = [], stats = no_stats,
      subcategories = [nvidia_subcategory, radeon_subcategory]\<rparr>"

definition shop_catalog :: Catalog where
  "shop_catalog = [cpu_category, gpu_category]"

section \<open>Strings\<close>

lemma js_includes_sublist: "js_includes s k \<longleftrightarrow> sublist k s"
  by (induction s) (simp_all add: sublist_Cons_right)

lemma js_includes_empty: "js_includes s []"
  by (simp add: js_includes_sublist)

lemma ascii_lower_append: "ascii_lower (a @ b) = ascii_lower a @ ascii_lower b"
  by (simp add: ascii_lower_def)

text \<open>A verbatim substring is a substring once both strings are lowered as ASCII.\<close>

lemma sublist_ascii_lower: "sublist k s \<Longrightarrow> sublist (ascii_lower k) (ascii_lower s)"
  unfolding sublist_def ascii_lower_def by (metis map_append)

lemma is_ascii_append: "is_ascii (a @ b) \<longleftrightarrow> is_ascii a \<and> is_ascii b"
  by (simp add: is_ascii_def)

lemma is_ascii_space: "is_ascii '' ''"
  by (simp add: is_ascii_def)

lemma is_ascii_join: "list_all is_ascii xs \<Longrightarrow> is_ascii sep \<Longrightarrow> is_ascii (join xs sep)"
  by (induction xs sep rule: join.induct) (simp_all add: is_ascii_append, simp add: is_ascii_def)

lemma lowers_ascii_ascii_lower: "lowers_ascii ascii_lower"
  by (simp add: lowers_ascii_def)

lemma lowers_asciiD: "lowers_ascii toLowerCase \<Longrightarrow> is_ascii s \<Longrightarrow> toLowerCase s = ascii_lower s"
  by (simp add: lowers_ascii_def)

text \<open>
  The ASCII lowering on the alphabet, and what the comparison of two lowered ASCII strings
  is under a lowering that lowers ASCII as the language says: equality up to the case of
  the letters A to Z.
\<close>

lemma ascii_lower_alphabet:
  "ascii_lower ''ABCDEFGHIJKLMNOPQRSTUVWXYZ [0-9]'' = ''abcdefghijklmnopqrstuvwxyz [0-9]''"
  by code_simp

lemma lowered_equal_ascii:
  "lowers_ascii toLowerCase \<Longrightarrow> is_ascii a \<Longrightarrow> is_ascii b \<Longrightarrow>
   toLowerCase a = toLowerCase b \<longleftrightarrow> ascii_lower a = ascii_lower b"
  by (simp add: lowers_asciiD)

section \<open>Searches over ASCII text\<close>

text \<open>
  On a catalog and arguments of ASCII text, a search with a lowering that lowers ASCII as
  the language says is the search with \<^const>\<open>ascii_lower\<close>.
\<close>

lemma is_ascii_search_text:
  assumes "ascii_product p"
  shows "is_ascii (brand p @ '' '' @ model p @ '' '' @ join (specs p) '' '' @ '' '' @ raw_text p)"
proof -
  have "is_ascii (join (specs p) '' '')"
    using assms by (simp add: ascii_product_def is_ascii_join is_ascii_space)
  then show ?thesis
    using assms by (simp add: ascii_product_def is_ascii_def)
qed

lemma searchText_ascii:
  "lowers_ascii toLowerCase \<Longrightarrow> ascii_product p \<Longrightarrow>
   searchText toLowerCase p = searchText ascii_lower p"
  unfolding searchText_def
  by (rule trans[OF lowers_asciiD[OF _ is_ascii_search_text]
        lowers_asciiD[OF lowers_ascii_ascii_lower is_ascii_search_text, symmetric]])

lemma products_loop_ascii:
  assumes "lowers_ascii toLowerCase" and "is_ascii (keyword args)"
  shows "list_all ascii_product ps \<Longrightarrow>
     products_loop toLowerCase args cat subcat ps rs = products_loop ascii_lower args cat subcat ps rs"
proof (induction ps arbitrary: rs)
  case Nil
  then show ?case by simp
next
  case (Cons p ps)
  then have "searchText toLowerCase p = searchText ascii_lower p"
    using assms(1) by (simp add: searchText_ascii)
  moreover have "toLowerCase (keyword args) = ascii_lower (keyword args)"
    using assms by (rule lowers_asciiD)
  ultimately show ?case using Cons by (simp add: Let_def)
qed

lemma subcategories_loop_ascii:
  assumes "lowers_ascii toLowerCase" and "is_ascii (keyword args)"
  shows "list_all (\<lambda>s. list_all ascii_product (products s)) subs \<Longrightarrow>
     subcategories_loop toLowerCase args cat subs rs = subcategories_loop ascii_lower args cat subs rs"
  by (induction subs arbitrary: rs) (simp_all add: products_loop_ascii[OF assms] Let_def)

lemma category_skipped_ascii:
  assumes "lowers_ascii toLowerCase" and "ascii_args args" and "is_ascii (category_name cat)"
  shows "category_skipped toLowerCase args cat = category_skipped ascii_lower args cat"
proof -
  have "is_ascii (case category args of None \<Rightarrow> [] | Some c \<Rightarrow> c)"
    using assms(2) by (simp add: ascii_args_def is_ascii_def split: option.splits)
  then show ?thesis
    using assms(1,3) by (simp add: category_skipped_def lowers_asciiD)
qed

lemma categories_loop_ascii:
  assumes "lowers_ascii toLowerCase" and "ascii_args args"
  shows "ascii_catalog cats \<Longrightarrow>
     categories_loop toLowerCase args cats rs = categories_loop ascii_lower args cats rs"
proof (induction cats arbitrary: rs)
  case Nil
  then show ?case by simp
next
  case (Cons c cats)
  have k: "is_ascii (keyword args)" using assms(2) by (simp add: ascii_args_def)
  from Cons.prems have c: "is_ascii (category_name c)"
    "list_all (\<lambda>s. list_all ascii_product (products s)) (subcategories c)"
    "ascii_catalog cats"
    by (simp_all add: ascii_catalog_def)
  show ?case
    using Cons.IH[OF c(3)]
    by (simp add: category_skipped_ascii[OF assms c(1)]
        subcategories_loop_ascii[OF assms(1) k c(2)] Let_def)
qed

lemma searchProducts_ascii:
  "lowers_ascii toLowerCase \<Longrightarrow> ascii_args args \<Longrightarrow> ascii_catalog data \<Longrightarrow>
   searchProducts toLowerCase data args = searchProducts ascii_lower data args"
  by (simp add: searchProducts_def categories_loop_ascii)


section \<open>The search loops\<close>

text \<open>
  The test \<^verbatim>\<open>results.length >= limit\<close> compares a length with a number: it holds from
  \<^const>\<open>search_cap\<close> results on.
\<close>

lemma limit_reached_cap: "limit_reached args rs \<longleftrightarrow> search_cap args \<le> length rs"
  unfolding limit_reached_def search_cap_def
  by (simp add: ceiling_le_iff nat_le_iff)

lemma search_cap_pos: "0 < search_limit args \<Longrightarrow> 0 < search_cap args"
  by (simp add: search_cap_def)

lemma take_short: "length (take n xs) < n \<Longrightarrow> take n xs = xs"
  by simp

text \<open>
  Entered below the cap, each loop leaves \<^verbatim>\<open>results\<close> as the matches it has walked over,
  appended and cut at the cap.
\<close>

lemma products_loop_take:
  "length rs < search_cap args \<Longrightarrow>
   products_loop toLowerCase args cat subcat ps rs =
     take (search_cap args)
       (rs @ map (\<lambda>p. (p, category_name cat, name subcat)) (filter (product_passes toLowerCase args) ps))"
proof (induction ps arbitrary: rs)
  case Nil
  then show ?case by simp
next
  case (Cons p ps)
  show ?case
  proof (cases "product_passes toLowerCase args p")
    case False
    then show ?thesis using Cons by (auto simp: product_passes_def)
  next
    case True
    let ?rs' = "rs @ [(p, category_name cat, name subcat)]"
    show ?thesis
    proof (cases "limit_reached args ?rs'")
      case True
      then have len: "length ?rs' = search_cap args"
        using Cons.prems by (simp add: limit_reached_cap)
      have "take (search_cap args) (?rs' @ ys) = ?rs'" for ys
        unfolding len[symmetric] by simp
      from this[of "map (\<lambda>p. (p, category_name cat, name subcat)) (filter (product_passes toLowerCase args) ps)"]
      have "take (search_cap args)
         (rs @ map (\<lambda>p. (p, category_name cat, name subcat)) (filter (product_passes toLowerCase args) (p # ps)))
         = ?rs'"
        using \<open>product_passes toLowerCase args p\<close> by simp
      moreover have "products_loop toLowerCase args cat subcat (p # ps) rs = ?rs'"
        using \<open>product_passes toLowerCase args p\<close> True by (simp add: product_passes_def Let_def)
      ultimately show ?thesis by simp
    next
      case False
      then have "length ?rs' < search_cap args" by (simp add: limit_reached_cap)
      from Cons.IH[OF this] show ?thesis using \<open>product_passes toLowerCase args p\<close> False
        by (simp add: product_passes_def Let_def)
    qed
  qed
qed

lemma subcategories_loop_take:
  "length rs < search_cap args \<Longrightarrow>
   subcategories_loop toLowerCase args cat subs rs =
     take (search_cap args) (rs @ concat (map (subcategory_matches toLowerCase args cat) subs))"
proof (induction subs arbitrary: rs)
  case Nil
  then show ?case by simp
next
  case (Cons s subs)
  let ?rs' = "products_loop toLowerCase args cat s (products s) rs"
  have eq: "?rs' = take (search_cap args) (rs @ subcategory_matches toLowerCase args cat s)"
    using products_loop_take[OF Cons.prems] by (simp add: subcategory_matches_def)
  show ?case
  proof (cases "limit_reached args ?rs'")
    case True
    then have "search_cap args \<le> length (rs @ subcategory_matches toLowerCase args cat s)"
      unfolding limit_reached_cap eq by simp
    then show ?thesis using True eq by (simp add: Let_def)
  next
    case False
    then have short: "length ?rs' < search_cap args" by (simp add: limit_reached_cap)
    then have "?rs' = rs @ subcategory_matches toLowerCase args cat s"
      unfolding eq by (rule take_short)
    with Cons.IH[OF short] False show ?thesis by (simp add: Let_def)
  qed
qed

lemma categories_loop_take:
  "length rs < search_cap args \<Longrightarrow>
   categories_loop toLowerCase args cats rs =
     take (search_cap args) (rs @ concat (map (category_matches toLowerCase args) cats))"
proof (induction cats arbitrary: rs)
  case Nil
  then show ?case by simp
next
  case (Cons c cats)
  show ?case
  proof (cases "category_skipped toLowerCase args c")
    case True
    then show ?thesis using Cons by (simp add: category_matches_def)
  next
    case notskipped: False
    let ?rs' = "subcategories_loop toLowerCase args c (subcategories c) rs"
    have eq: "?rs' = take (search_cap args) (rs @ category_matches toLowerCase args c)"
      using subcategories_loop_take[OF Cons.prems] notskipped by (simp add: category_matches_def)
    show ?thesis
    proof (cases "limit_reached args ?rs'")
      case True
      then have "search_cap args \<le> length (rs @ category_matches toLowerCase args c)"
        unfolding limit_reached_cap eq by simp
      then show ?thesis using True eq notskipped by (simp add: Let_def)
    next
      case False
      then have short: "length ?rs' < search_cap args" by (simp add: limit_reached_cap)
      then have "?rs' = rs @ category_matches toLowerCase args c"
        unfolding eq by (rule take_short)
      with Cons.IH[OF short] False notskipped show ?thesis by (simp add: Let_def)
    qed
  qed
qed

text \<open>The matches of all categories are the entries of the traversal that pass the filters.\<close>

lemma traversal_Cons:
  "traversal (c # data) =
     concat (map (\<lambda>subcat. map (\<lambda>p. (c, subcat, p)) (products subcat)) (subcategories c))
     @ traversal data"
  by (simp add: traversal_def)

lemma category_matches_traversal:
  "concat (map (category_matches toLowerCase args) data) =
     map annotate (filter (search_match toLowerCase args) (traversal data))"
proof (induction data)
  case Nil
  then show ?case by (simp add: traversal_def)
next
  case (Cons c data)
  have sub: "map annotate (filter (search_match toLowerCase args) (map (\<lambda>p. (c, s, p)) (products s))) =
      (if category_skipped toLowerCase args c then [] else subcategory_matches toLowerCase args c s)" for s
    by (simp add: subcategory_matches_def annotate_def filter_map comp_def search_match_def
        product_passes_def[abs_def])
  have one: "category_matches toLowerCase args c =
     map annotate (filter (search_match toLowerCase args)
        (concat (map (\<lambda>subcat. map (\<lambda>p. (c, subcat, p)) (products subcat)) (subcategories c))))"
    by (simp add: category_matches_def filter_concat map_concat comp_def sub)
  with Cons show ?case by (simp add: traversal_Cons)
qed

text \<open>
  With a positive limit, the search returns the first \<^const>\<open>search_cap\<close> entries of the
  traversal that pass the filters, in that order.
\<close>

lemma searchProducts_first_matches:
  assumes "0 < search_limit args"
  shows "results (searchProducts toLowerCase data args) =
     map search_hit
       (map annotate (take (search_cap args) (filter (search_match toLowerCase args) (traversal data))))"
proof -
  have "length ([] :: Annotated list) < search_cap args"
    using search_cap_pos[OF assms] by simp
  from categories_loop_take[OF this]
  show ?thesis
    by (simp add: searchProducts_def Let_def category_matches_traversal take_map)
qed

text \<open>For a limit that is a whole number from 1 on, these are the first \<open>n\<close> matches.\<close>

lemma searchProducts_whole_limit:
  assumes "limit args = Some (real n)" and "0 < n"
  shows "results (searchProducts toLowerCase data args) =
     map search_hit (map annotate (take n (filter (search_match toLowerCase args) (traversal data))))"
    and "length (results (searchProducts toLowerCase data args)) \<le> n"
proof -
  have "search_limit args = real n" using assms(1) by (simp add: search_limit_def)
  then have "0 < search_limit args" "search_cap args = n"
    using assms(2) by (simp_all add: search_cap_def)
  with searchProducts_first_matches[of args toLowerCase data]
  show "results (searchProducts toLowerCase data args) =
     map search_hit (map annotate (take n (filter (search_match toLowerCase args) (traversal data))))"
    by simp
  then show "length (results (searchProducts toLowerCase data args)) \<le> n" by simp
qed

text \<open>A bound other than 0 is an inclusive bound on the price.\<close>

lemma below_min_nonzero:
  "min_price args = Some lo \<Longrightarrow> lo \<noteq> 0 \<Longrightarrow> below_min args p \<longleftrightarrow> price p < lo"
  by (simp add: below_min_def truthy_number_def)

lemma above_max_nonzero:
  "max_price args = Some hi \<Longrightarrow> hi \<noteq> 0 \<Longrightarrow> above_max args p \<longleftrightarrow> hi < price p"
  by (simp add: above_max_def truthy_number_def)



section \<open>Claims about search\_products\<close>

text \<open>
  Claim C1: a search returns at most \<^verbatim>\<open>limit\<close> results, the first \<^verbatim>\<open>limit\<close> matches in
  traversal order. The test of line 212 runs after the \<^verbatim>\<open>push\<close> of line 206, so the first
  match is returned whatever the limit: with \<^verbatim>\<open>limit = 0\<close> the search for \<^verbatim>\<open>i5\<close> in the
  one-product catalog returns that product, one result where the limit allows none, under
  every lowering that lowers ASCII as the language says.
  (For a whole limit from 1 on the claim holds: \<open>searchProducts_whole_limit\<close>.)
\<close>

theorem search_limit_zero_returns_a_result:
  assumes "lowers_ascii toLowerCase"
  shows "results (searchProducts toLowerCase demo_catalog
      \<lparr>keyword = ''i5'', category = None, min_price = None, max_price = None, limit = Some 0\<rparr>)
   = [search_hit (demo_product, ''CPU'', ''Intel'')]"
proof -
  let ?args = "\<lparr>keyword = ''i5'', category = None, min_price = None, max_price = None,
      limit = Some 0\<rparr>"
  have a: "ascii_args ?args" by code_simp
  have c: "ascii_catalog demo_catalog" by code_simp
  have "results (searchProducts ascii_lower demo_catalog ?args)
      = [search_hit (demo_product, ''CPU'', ''Intel'')]"
    by code_simp
  then show ?thesis by (simp add: searchProducts_ascii[OF assms a c])
qed

text \<open>The theorem at the ASCII lowering.\<close>

theorem search_limit_zero_returns_a_result_witness:
  "results (searchProducts ascii_lower demo_catalog
      \<lparr>keyword = ''i5'', category = None, min_price = None, max_price = None, limit = Some 0\<rparr>)
   = [search_hit (demo_product, ''CPU'', ''Intel'')]"
  by (rule search_limit_zero_returns_a_result[OF lowers_ascii_ascii_lower])




text \<open>
  Claim C3: \<^verbatim>\<open>min_price\<close> and \<^verbatim>\<open>max_price\<close> are inclusive bounds whenever supplied, a
  bound of 0 included. Lines 198 and 202 test the bound for truthiness, so a bound of 0
  counts as absent: with \<^verbatim>\<open>max_price = 0\<close> the product priced 6000 is still returned,
  under every lowering that lowers ASCII as the language says.
  (For a bound other than 0 the tests are the claim's: \<open>below_min_nonzero\<close>,
  \<open>above_max_nonzero\<close>.)
\<close>

theorem search_max_price_zero_keeps_product:
  assumes "lowers_ascii toLowerCase"
  shows "price demo_product = 6000 \<and>
   results (searchProducts toLowerCase demo_catalog
      \<lparr>keyword = ''i5'', category = None, min_price = None, max_price = Some 0, limit = None\<rparr>)
   = [search_hit (demo_product, ''CPU'', ''Intel'')]"
proof -
  let ?args = "\<lparr>keyword = ''i5'', category = None, min_price = None, max_price = Some 0,
      limit = None\<rparr>"
  have a: "ascii_args ?args" by code_simp
  have c: "ascii_catalog demo_catalog" by code_simp
  have "price demo_product = 6000 \<and>
      results (searchProducts ascii_lower demo_catalog ?args)
      = [search_hit (demo_product, ''CPU'', ''Intel'')]"
    by code_simp
  then show ?thesis by (simp add: searchProducts_ascii[OF assms a c])
qed

text \<open>The theorem at the ASCII lowering.\<close>

theorem search_max_price_zero_keeps_product_witness:
  "price demo_product = 6000 \<and>
   results (searchProducts ascii_lower demo_catalog
      \<lparr>keyword = ''i5'', category = None, min_price = None, max_price = Some 0, limit = None\<rparr>)
   = [search_hit (demo_product, ''CPU'', ''Intel'')]"
  by (rule search_max_price_zero_keeps_product[OF lowers_ascii_ascii_lower])

text \<open>
  Claim C9: with the empty keyword every product matches, and the search returns the first
  \<^verbatim>\<open>limit\<close> products that pass the other filters. The empty keyword does match everything
  (\<open>js_includes_empty\<close>), but with \<^verbatim>\<open>limit = 0\<close> the search returns one product, as in
  claim C1.
\<close>

theorem search_empty_keyword_limit_zero:
  assumes "lowers_ascii toLowerCase"
  shows "results (searchProducts toLowerCase demo_catalog
      \<lparr>keyword = [], category = None, min_price = None, max_price = None, limit = Some 0\<rparr>)
   = [search_hit (demo_product, ''CPU'', ''Intel'')]"
proof -
  let ?args = "\<lparr>keyword = [], category = None, min_price = None, max_price = None,
      limit = Some 0\<rparr>"
  have a: "ascii_args ?args" by code_simp
  have c: "ascii_catalog demo_catalog" by code_simp
  have "results (searchProducts ascii_lower demo_catalog ?args)
      = [search_hit (demo_product, ''CPU'', ''Intel'')]"
    by code_simp
  then show ?thesis by (simp add: searchProducts_ascii[OF assms a c])
qed

text \<open>The theorem at the ASCII lowering.\<close>

theorem search_empty_keyword_limit_zero_witness:
  "results (searchProducts ascii_lower demo_catalog
      \<lparr>keyword = [], category = None, min_price = None, max_price = None, limit = Some 0\<rparr>)
   = [search_hit (demo_product, ''CPU'', ''Intel'')]"
  by (rule search_empty_keyword_limit_zero[OF lowers_ascii_ascii_lower])

section \<open>Claims about get\_product\_by\_model\<close>

lemma find_append_case:
  "find P (xs @ ys) = (case find P xs of Some x \<Rightarrow> Some x | None \<Rightarrow> find P ys)"
  by (induction xs) auto

lemma model_products_loop_find:
  "model_products_loop toLowerCase m cat subcat ps =
     map_option (\<lambda>(c, s, p). product_detail c s p)
       (find (\<lambda>(c, s, p). toLowerCase (model p) = toLowerCase m) (map (\<lambda>p. (cat, subcat, p)) ps))"
  by (induction ps) auto

lemma model_subcategories_loop_find:
  "model_subcategories_loop toLowerCase m cat subs =
     map_option (\<lambda>(c, s, p). product_detail c s p)
       (find (\<lambda>(c, s, p). toLowerCase (model p) = toLowerCase m)
          (concat (map (\<lambda>subcat. map (\<lambda>p. (cat, subcat, p)) (products subcat)) subs)))"
  by (induction subs) (auto simp: model_products_loop_find find_append_case split: option.splits)

lemma model_categories_loop_find:
  "model_categories_loop toLowerCase m data =
     map_option (\<lambda>(c, s, p). product_detail c s p)
       (find (\<lambda>(c, s, p). toLowerCase (model p) = toLowerCase m) (traversal data))"
proof (induction data)
  case Nil
  then show ?case by (simp add: traversal_def)
next
  case (Cons c data)
  then show ?case
    by (auto simp: traversal_Cons model_subcategories_loop_find find_append_case
        split: option.splits)
qed

text \<open>
  Claim C4: under every lowering, \<^verbatim>\<open>get_product_by_model\<close> compares the lowered
  model with the lowered \<^verbatim>\<open>model\<close> field of each product for equality and returns the
  first product of the traversal that matches, with the names of its category and
  subcategory and its \<^verbatim>\<open>raw_text\<close>; when none matches it returns \<^verbatim>\<open>found: false\<close>
  with a message that holds the queried model. (On ASCII models the comparison is equality
  up to the case of the letters: \<open>lowered_equal_ascii\<close>.)
\<close>

theorem getProductByModel_first_match:
  "getProductByModel toLowerCase data m =
     (case find (\<lambda>(cat, subcat, p). toLowerCase (model p) = toLowerCase m) (traversal data) of
        Some (cat, subcat, p) \<Rightarrow>
          ModelFound \<lparr>det_brand = brand p, det_model = model p, det_specs = specs p,
            det_price = price p, det_original_price = original_price p,
            det_discount_amount = discount_amount p, det_category = category_name cat,
            det_subcategory = name subcat, det_markers = markers p, det_raw_text = raw_text p\<rparr>
      | None \<Rightarrow> ModelNotFound (''Product with model '' @ dq @ m @ dq @ '' not found''))"
  by (simp add: getProductByModel_def model_categories_loop_find product_detail_def
      split: option.splits prod.splits)

text \<open>
  The theorem at the two-category catalog, where two products have the models
  \<^verbatim>\<open>RX-7600\<close> and \<^verbatim>\<open>rx-7600\<close>: the query \<^verbatim>\<open>Rx-7600\<close> finds the first of them, and
  \<^verbatim>\<open>i7\<close> finds none.
\<close>

theorem getProductByModel_first_match_witness:
  "getProductByModel ascii_lower shop_catalog ''Rx-7600'' =
     ModelFound \<lparr>det_brand = ''AMD'', det_model = ''RX-7600'', det_specs = [],
            det_price = 8000, det_original_price = None,
            det_discount_amount = None, det_category = ''GPU'',
            det_subcategory = ''Radeon'', det_markers = [],
            det_raw_text = ''AMD RX-7600''\<rparr>
   \<and> getProductByModel ascii_lower shop_catalog ''i7'' =
       ModelNotFound (''Product with model '' @ dq @ ''i7'' @ dq @ '' not found'')"
  unfolding getProductByModel_first_match by code_simp

section \<open>Claims about list\_categories and get\_category\_products\<close>

lemma find_distinct_key:
  "distinct (map f xs) \<Longrightarrow> i < length xs \<Longrightarrow> find (\<lambda>x. f x = f (xs ! i)) xs = Some (xs ! i)"
proof (induction xs arbitrary: i)
  case Nil
  then show ?case by simp
next
  case (Cons x xs)
  show ?case
  proof (cases i)
    case 0
    then show ?thesis by simp
  next
    case (Suc k)
    then have "k < length xs" using Cons.prems by simp
    then have "f (xs ! k) \<in> f ` set xs" by simp
    then have "f x \<noteq> f (xs ! k)" using Cons.prems(1) by auto
    then show ?thesis using Cons Suc by simp
  qed
qed

lemma find_stored_key:
  "k \<in> set (map f xs) \<Longrightarrow> \<exists>x. find (\<lambda>x. f x = k) xs = Some x"
  by (cases "find (\<lambda>x. f x = k) xs") (auto simp: find_None_iff)

lemma all_products_loop_concat:
  "all_products_loop subs acc = acc @ concat (map with_subcategory subs)"
  by (induction subs arbitrary: acc) simp_all

lemma length_all_products:
  "length (concat (map with_subcategory subs)) = sum_list (map (\<lambda>s. length (products s)) subs)"
  by (simp add: length_concat comp_def with_subcategory_def)

text \<open>
  Claim C5, as amended: when the category ids of the catalog are distinct, the names of the
  category's subcategories are distinct once lowered, and the subcategory's name is not
  empty, the \<^verbatim>\<open>product_count\<close> that \<^verbatim>\<open>list_categories\<close> reports for the subcategory is the
  \<^verbatim>\<open>total_products\<close> that \<^verbatim>\<open>get_category_products\<close> reports for the category's id and
  the subcategory's name.
\<close>

theorem subcategory_count_consistent:
  assumes "distinct (map category_id data)"
    and "i < length data"
    and "j < length (subcategories (data ! i))"
    and "distinct (map (\<lambda>s. toLowerCase (name s)) (subcategories (data ! i)))"
    and "name (subcategories (data ! i) ! j) \<noteq> []"
  shows "\<exists>l. getCategoryProducts toLowerCase data (category_id (data ! i))
                (Some (name (subcategories (data ! i) ! j))) limit_arg = CategoryListing l
            \<and> total_products l =
                product_count (entry_subcategories (categories (listCategories data) ! i) ! j)"
proof -
  let ?cat = "data ! i"
  let ?sub = "subcategories ?cat ! j"
  have c: "find (\<lambda>cat. category_id cat = category_id ?cat) data = Some ?cat"
    using find_distinct_key[OF assms(1,2)] .
  have s: "find (\<lambda>sub. toLowerCase (name sub) = toLowerCase (name ?sub)) (subcategories ?cat)
      = Some ?sub"
    using find_distinct_key[OF assms(4,3)] .
  have "getCategoryProducts toLowerCase data (category_id ?cat) (Some (name ?sub)) limit_arg =
      CategoryListing (listing_of ?cat (Some (name ?sub)) (with_subcategory ?sub)
        (case limit_arg of None \<Rightarrow> 20 | Some l \<Rightarrow> l))"
    using assms(5) by (simp add: getCategoryProducts_def c s truthy_string_def Let_def)
  moreover have "total_products (listing_of ?cat (Some (name ?sub)) (with_subcategory ?sub) lv) =
      product_count (entry_subcategories (categories (listCategories data) ! i) ! j)" for lv
    using assms(2,3) by (simp add: listing_of_def Let_def with_subcategory_def listCategories_def)
  ultimately show ?thesis by blast
qed

text \<open>
  The theorem at the two-category catalog: the second subcategory of the second category,
  \<^verbatim>\<open>Radeon\<close>, with two products.
\<close>

theorem subcategory_count_consistent_witness:
  "\<exists>l. getCategoryProducts ascii_lower shop_catalog ''C2'' (Some ''Radeon'') None = CategoryListing l
      \<and> total_products l = 2
      \<and> product_count (entry_subcategories (categories (listCategories shop_catalog) ! 1) ! 1) = 2"
proof -
  have 1: "distinct (map category_id shop_catalog)" by code_simp
  have 2: "1 < length shop_catalog" by code_simp
  have 3: "1 < length (subcategories (shop_catalog ! 1))" by code_simp
  have 4: "distinct (map (\<lambda>s. ascii_lower (name s)) (subcategories (shop_catalog ! 1)))"
    by code_simp
  have 5: "name (subcategories (shop_catalog ! 1) ! 1) \<noteq> []" by code_simp
  have 6: "category_id (shop_catalog ! 1) = ''C2''"
    "name (subcategories (shop_catalog ! 1) ! 1) = ''Radeon''"
    by code_simp+
  have 7: "product_count (entry_subcategories (categories (listCategories shop_catalog) ! 1) ! 1) = 2"
    by code_simp
  from subcategory_count_consistent[OF 1 2 3 4 5, of None] 6 7
  show ?thesis by auto
qed

text \<open>
  Claim C5 as stated fails: in the twin catalog \<^verbatim>\<open>list_categories\<close> reports 0 products
  for the second subcategory, \<^verbatim>\<open>intel\<close>, and \<^verbatim>\<open>get_category_products\<close> called with that
  name finds the first subcategory, \<^verbatim>\<open>Intel\<close>, and reports 1. (The names are ASCII, which
  \<^const>\<open>ascii_lower\<close> lowers as the language says.)
\<close>

theorem twin_subcategory_counts_differ:
  "name (subcategories (twin_catalog ! 0) ! 1) = ''intel''
   \<and> product_count (entry_subcategories (categories (listCategories twin_catalog) ! 0) ! 1) = 0
   \<and> getCategoryProducts ascii_lower twin_catalog ''C1'' (Some ''intel'') None =
       CategoryListing \<lparr>listing_category_name = ''CPU'', subcategory_filter = Some ''Intel'',
         total_products = 1, showing = 1,
         listing_products = [category_product (demo_product, ''Intel'')]\<rparr>"
  by code_simp

text \<open>
  Claim C6: called with an id that no category stores, \<^verbatim>\<open>get_category_products\<close> returns
  \<^verbatim>\<open>found: false\<close> with a message that holds the id; called with a stored id and no
  subcategory name, it answers for the first category that stores the id, with
  \<^verbatim>\<open>total_products\<close> the sum of the lengths of its subcategories' product lists and the
  products taken, up to the limit, from their concatenation in stored order.
\<close>

theorem getCategoryProducts_by_id:
  "(cid \<notin> set (map category_id data) \<longrightarrow>
      getCategoryProducts toLowerCase data cid subcategory_name limit_arg =
        CategoryNotFound (''Category with ID '' @ dq @ cid @ dq @ '' not found''))
   \<and> (cid \<in> set (map category_id data) \<longrightarrow>
      (\<exists>cat. find (\<lambda>c. category_id c = cid) data = Some cat \<and>
        getCategoryProducts toLowerCase data cid None limit_arg =
          CategoryListing
            \<lparr>listing_category_name = category_name cat, subcategory_filter = None,
             total_products = sum_list (map (\<lambda>s. length (products s)) (subcategories cat)),
             showing = length (slice0 (concat (map with_subcategory (subcategories cat)))
                                 (case limit_arg of None \<Rightarrow> 20 | Some l \<Rightarrow> l)),
             listing_products = map category_product
                (slice0 (concat (map with_subcategory (subcategories cat)))
                   (case limit_arg of None \<Rightarrow> 20 | Some l \<Rightarrow> l))\<rparr>))"
proof (intro conjI impI)
  assume "cid \<notin> set (map category_id data)"
  then have "find (\<lambda>cat. category_id cat = cid) data = None"
    by (auto simp: find_None_iff)
  then show "getCategoryProducts toLowerCase data cid subcategory_name limit_arg =
        CategoryNotFound (''Category with ID '' @ dq @ cid @ dq @ '' not found'')"
    by (simp add: getCategoryProducts_def)
next
  assume "cid \<in> set (map category_id data)"
  then obtain cat where cat: "find (\<lambda>c. category_id c = cid) data = Some cat"
    using find_stored_key by fast
  then have "getCategoryProducts toLowerCase data cid None limit_arg =
        CategoryListing
          \<lparr>listing_category_name = category_name cat, subcategory_filter = None,
           total_products = sum_list (map (\<lambda>s. length (products s)) (subcategories cat)),
           showing = length (slice0 (concat (map with_subcategory (subcategories cat)))
                               (case limit_arg of None \<Rightarrow> 20 | Some l \<Rightarrow> l)),
           listing_products = map category_product
              (slice0 (concat (map with_subcategory (subcategories cat)))
                 (case limit_arg of None \<Rightarrow> 20 | Some l \<Rightarrow> l))\<rparr>"
    by (simp add: getCategoryProducts_def truthy_string_def listing_of_def Let_def
        all_products_loop_concat length_all_products)
  with cat show "\<exists>cat. find (\<lambda>c. category_id c = cid) data = Some cat \<and>
        getCategoryProducts toLowerCase data cid None limit_arg =
          CategoryListing
            \<lparr>listing_category_name = category_name cat, subcategory_filter = None,
             total_products = sum_list (map (\<lambda>s. length (products s)) (subcategories cat)),
             showing = length (slice0 (concat (map with_subcategory (subcategories cat)))
                                 (case limit_arg of None \<Rightarrow> 20 | Some l \<Rightarrow> l)),
             listing_products = map category_product
                (slice0 (concat (map with_subcategory (subcategories cat)))
                   (case limit_arg of None \<Rightarrow> 20 | Some l \<Rightarrow> l))\<rparr>"
    by blast
qed

text \<open>The boundary scenario: \<^verbatim>\<open>C2\<close> is not stored, \<^verbatim>\<open>C1\<close> is and holds one product.\<close>

theorem getCategoryProducts_by_id_witness:
  "getCategoryProducts ascii_lower demo_catalog ''C2'' None None =
        CategoryNotFound (''Category with ID '' @ dq @ ''C2'' @ dq @ '' not found'')
   \<and> getCategoryProducts ascii_lower demo_catalog ''C1'' None None =
        CategoryListing
          \<lparr>listing_category_name = ''CPU'', subcategory_filter = None,
           total_products = 1, showing = 1,
           listing_products = [category_product (demo_product, ''Intel'')]\<rparr>"
proof -
  have 1: "''C2'' \<notin> set (map category_id demo_catalog)"
    by (simp add: demo_catalog_def demo_category_def)
  have 2: "''C1'' \<in> set (map category_id demo_catalog)"
    by (simp add: demo_catalog_def demo_category_def)
  have f: "find (\<lambda>c. category_id c = ''C1'') demo_catalog = Some demo_category"
    by (simp add: demo_catalog_def demo_category_def)
  have s: "slice0 (concat (map with_subcategory (subcategories demo_category))) 20
      = [(demo_product, ''Intel'')]"
    by (simp add: demo_category_def demo_subcategory_def with_subcategory_def slice0_def
        to_integer_def)
  have n: "category_name demo_category = ''CPU''"
    "sum_list (map (\<lambda>s. length (products s)) (subcategories demo_category)) = 1"
    by (simp_all add: demo_category_def demo_subcategory_def)
  note h = getCategoryProducts_by_id[of _ demo_catalog ascii_lower None None]
  show ?thesis
  proof (intro conjI)
    show "getCategoryProducts ascii_lower demo_catalog ''C2'' None None =
        CategoryNotFound (''Category with ID '' @ dq @ ''C2'' @ dq @ '' not found'')"
      using h[of "''C2''", THEN conjunct1] 1 by blast
    show "getCategoryProducts ascii_lower demo_catalog ''C1'' None None =
        CategoryListing
          \<lparr>listing_category_name = ''CPU'', subcategory_filter = None,
           total_products = 1, showing = 1,
           listing_products = [category_product (demo_product, ''Intel'')]\<rparr>"
      using h[of "''C1''", THEN conjunct2] 2 f s n by auto
  qed
qed





section \<open>Claims about loading\<close>

text \<open>
  Claim C7: when reading or parsing the document fails, the server holds the empty catalog
  (and has reported the failure), and on it every tool returns a well-formed answer: the
  search no results, the model lookup and the category lookup \<^verbatim>\<open>found: false\<close>, the
  category list no category.
\<close>

theorem failed_load_leaves_empty_catalog:
  "fst (new_server (Inl e)) = \<lparr>productData = []\<rparr>
   \<and> snd (new_server (Inl e)) = [e]
   \<and> searchProducts toLowerCase (productData (fst (new_server (Inl e)))) args =
        \<lparr>total_found = 0, results = []\<rparr>
   \<and> getProductByModel toLowerCase (productData (fst (new_server (Inl e)))) m =
        ModelNotFound (''Product with model '' @ dq @ m @ dq @ '' not found'')
   \<and> listCategories (productData (fst (new_server (Inl e)))) =
        \<lparr>total_categories = 0, categories = []\<rparr>
   \<and> getCategoryProducts toLowerCase (productData (fst (new_server (Inl e)))) cid subcategory_name limit_arg =
        CategoryNotFound (''Category with ID '' @ dq @ cid @ dq @ '' not found'')"
  by (simp add: new_server_def loadProductData_def searchProducts_def getProductByModel_def
      listCategories_def getCategoryProducts_def)

end
